theory Spec2Isabelle
  imports Main "HOL-Library.AList"
begin

section \<open>Data model\<close>

text \<open>
  An activity is the dictionary that \<^verbatim>\<open>SAMPLE_ACTIVITIES\<close> stores under an activity
  name: the four fields \<^verbatim>\<open>description\<close>, \<^verbatim>\<open>schedule\<close>, \<^verbatim>\<open>max_participants\<close> and
  \<^verbatim>\<open>participants\<close>. Python's \<^verbatim>\<open>int\<close> is \<open>int\<close>, the participants are a list of
  strings in insertion order.
\<close>

record activity =
  description :: string
  schedule :: string
  max_participants :: int
  participants :: "string list"

text \<open>
  \<^verbatim>\<open>doc = {"name": name, **data}\<close> in \<^verbatim>\<open>startup_event\<close>: the activity's fields and the
  field \<^verbatim>\<open>name\<close>.
\<close>

record activity_doc = activity +
  name :: string

text \<open>
  A document as the collection holds it: MongoDB adds the field \<^verbatim>\<open>_id\<close> on insertion
  (here \<open>oid\<close>, a number standing for the ObjectId).
\<close>

record stored_doc = activity_doc +
  oid :: nat

text \<open>
  A Python \<^verbatim>\<open>dict\<close> from activity name to activity is an association list with the
  entries in insertion order; \<^verbatim>\<open>d[k]\<close> is \<open>map_of d k\<close> and \<^verbatim>\<open>d[k] = v\<close> is
  \<open>AList.update k v d\<close> (the value is replaced in place, a new key goes to the end).
\<close>

type_synonym activities = "(string \<times> activity) list"

text \<open>
  The module's global state: the dictionary \<^verbatim>\<open>SAMPLE_ACTIVITIES\<close>, which the fallback
  path mutates, and \<^verbatim>\<open>activities_collection\<close>, which is \<^verbatim>\<open>None\<close> or the handle of the
  collection, modelled by the documents the collection holds, in natural order.
\<close>

record store =
  sample_activities :: activities
  activities_collection :: "stored_doc list option"

text \<open>
  What a request can raise: FastAPI's \<^verbatim>\<open>HTTPException\<close> with status code and detail, or
  an exception of the database driver.
\<close>

datatype exn = HTTPException nat string | DriverError

text \<open>
  The database is outside the program. Whether a call to it raises (server unreachable,
  timeout) is an input of the model, one flag per call the request handlers make. A call
  that raises leaves the collection as it was.
\<close>

record db_env =
  find_raises :: bool
  update_raises :: bool

record startup_env =
  ping_raises :: bool
  count_raises :: bool
  insert_raises :: bool

section \<open>The sample data\<close>

definition SAMPLE_ACTIVITIES :: activities where
  "SAMPLE_ACTIVITIES = [
    (''Chess Club'', \<lparr>
      description = ''Learn strategies and compete in chess tournaments'',
      schedule = ''Fridays, 3:30 PM - 5:00 PM'',
      max_participants = 12,
      participants = [''michael@mergington.edu'', ''daniel@mergington.edu'']\<rparr>),
    (''Programming Class'', \<lparr>
      description = ''Learn programming fundamentals and build software projects'',
      schedule = ''Tuesdays and Thursdays, 3:30 PM - 4:30 PM'',
      max_participants = 20,
      participants = [''emma@mergington.edu'', ''sophia@mergington.edu'']\<rparr>),
    (''Gym Class'', \<lparr>
      description = ''Physical education and sports activities'',
      schedule = ''Mondays, Wednesdays, Fridays, 2:00 PM - 3:00 PM'',
      max_participants = 30,
      participants = [''john@mergington.edu'', ''olivia@mergington.edu'']\<rparr>),
    (''Soccer Team'', \<lparr>
      description = ''Join the school soccer team and compete in local leagues'',
      schedule = ''Tuesdays and Thursdays, 4:00 PM - 5:30 PM'',
      max_participants = 22,
      participants = [''lucas@mergington.edu'', ''mia@mergington.edu'']\<rparr>),
    (''Basketball Club'', \<lparr>
      description = ''Practice basketball skills and play friendly matches'',
      schedule = ''Wednesdays, 3:30 PM - 5:00 PM'',
      max_participants = 15,
      participants = [''liam@mergington.edu'', ''ava@mergington.edu'']\<rparr>),
    (''Art Club'', \<lparr>
      description = ''Explore painting, drawing, and other visual arts'',
      schedule = ''Mondays, 3:30 PM - 5:00 PM'',
      max_participants = 18,
      participants = [''noah@mergington.edu'', ''isabella@mergington.edu'']\<rparr>),
    (''Drama Society'', \<lparr>
      description = ''Participate in acting, stage production, and school plays'',
      schedule = ''Thursdays, 4:00 PM - 5:30 PM'',
      max_participants = 20,
      participants = [''ethan@mergington.edu'', ''charlotte@mergington.edu'']\<rparr>),
    (''Debate Club'', \<lparr>
      description = ''Develop public speaking and argumentation skills'',
      schedule = ''Fridays, 4:00 PM - 5:30 PM'',
      max_participants = 16,
      participants = [''amelia@mergington.edu'', ''jack@mergington.edu'']\<rparr>),
    (''Math Olympiad'', \<lparr>
      description = ''Prepare for math competitions and solve challenging problems'',
      schedule = ''Wednesdays, 3:30 PM - 5:00 PM'',
      max_participants = 14,
      participants = [''benjamin@mergington.edu'', ''harper@mergington.edu'']\<rparr>)]"

section \<open>The database driver\<close>

text \<open>
  \<^verbatim>\<open>insert_many\<close> stores the documents in order and gives each an \<^verbatim>\<open>_id\<close>; the startup
  code calls it on an empty collection only, so the position is a fresh identifier.
\<close>

definition insert_many :: "activity_doc list \<Rightarrow> stored_doc list" where
  "insert_many docs =
     map (\<lambda>(i, doc). activity_doc.extend doc (stored_doc.fields i)) (enumerate 0 docs)"

text \<open>
  \<^verbatim>\<open>find({}).to_list(length=None)\<close>: every document of the collection, or an exception.
\<close>

definition to_list :: "db_env \<Rightarrow> stored_doc list \<Rightarrow> exn + stored_doc list" where
  "to_list env coll = (if find_raises env then Inl DriverError else Inr coll)"

text \<open>
  \<^verbatim>\<open>update_one({"name": n}, {"$addToSet": {"participants": e}})\<close> on the documents:
  the first document whose name is \<open>n\<close> gets \<open>e\<close> appended to its participants unless
  \<open>e\<close> is there already. The result is \<^verbatim>\<open>modified_count\<close> and the new collection.
\<close>

fun addToSet_one :: "string \<Rightarrow> string \<Rightarrow> stored_doc list \<Rightarrow> nat \<times> stored_doc list" where
  "addToSet_one n e [] = (0, [])"
| "addToSet_one n e (d # ds) =
     (if name d = n then
        (if e \<in> set (participants d) then (0, d # ds)
         else (1, d\<lparr>participants := participants d @ [e]\<rparr> # ds))
      else (case addToSet_one n e ds of (c, ds') \<Rightarrow> (c, d # ds')))"

definition update_one :: "db_env \<Rightarrow> string \<Rightarrow> string \<Rightarrow> stored_doc list
    \<Rightarrow> exn + (nat \<times> stored_doc list)" where
  "update_one env n e coll =
     (if update_raises env then Inl DriverError else Inr (addToSet_one n e coll))"

section \<open>The application\<close>

text \<open>
  \<^verbatim>\<open>startup_event\<close>, run on the freshly loaded module (\<^verbatim>\<open>SAMPLE_ACTIVITIES\<close> as written
  in the source) against a database whose collection holds \<open>coll\<close>: ping, count, and
  insertion of the sample documents when the count is zero; any exception resets the
  handle to \<^verbatim>\<open>None\<close>.
\<close>

definition startup_event :: "startup_env \<Rightarrow> stored_doc list \<Rightarrow> store" where
  "startup_event env coll =
     (if ping_raises env then
        \<lparr>sample_activities = SAMPLE_ACTIVITIES, activities_collection = None\<rparr>
      else if count_raises env then
        \<lparr>sample_activities = SAMPLE_ACTIVITIES, activities_collection = None\<rparr>
      else if length coll = 0 then
        (let activities_docs =
               map (\<lambda>(name, data). activity.extend data (activity_doc.fields name))
                 SAMPLE_ACTIVITIES
         in if insert_raises env then
              \<lparr>sample_activities = SAMPLE_ACTIVITIES, activities_collection = None\<rparr>
            else
              \<lparr>sample_activities = SAMPLE_ACTIVITIES,
               activities_collection = Some (insert_many activities_docs)\<rparr>)
      else
        \<lparr>sample_activities = SAMPLE_ACTIVITIES, activities_collection = Some coll\<rparr>)"

text \<open>
  The loop of \<^verbatim>\<open>get_activities_from_db\<close>: \<^verbatim>\<open>pop("name")\<close> and \<^verbatim>\<open>pop("_id", None)\<close>
  leave the activity's own fields, stored under the name.
\<close>

definition activities_dict :: "stored_doc list \<Rightarrow> activities" where
  "activities_dict activities_list =
     fold (\<lambda>doc d. AList.update (name doc) (activity.truncate doc) d) activities_list []"

definition get_activities_from_db :: "db_env \<Rightarrow> store \<Rightarrow> exn + activities" where
  "get_activities_from_db env s =
     (case activities_collection s of
        Some coll \<Rightarrow>
          (case to_list env coll of
             Inr activities_list \<Rightarrow> Inr (activities_dict activities_list)
           | Inl e \<Rightarrow> Inr (sample_activities s))
      | None \<Rightarrow> Inr (sample_activities s))"

definition update_activity_in_db :: "db_env \<Rightarrow> store \<Rightarrow> string \<Rightarrow> string
    \<Rightarrow> exn + (bool \<times> store)" where
  "update_activity_in_db env s activity_name email =
     (case activities_collection s of
        Some coll \<Rightarrow>
          (case update_one env activity_name email coll of
             Inr (modified_count, coll') \<Rightarrow>
               Inr (modified_count > 0, s\<lparr>activities_collection := Some coll'\<rparr>)
           | Inl e \<Rightarrow> Inr (False, s))
      | None \<Rightarrow>
          (case map_of (sample_activities s) activity_name of
             Some a \<Rightarrow>
               if email \<notin> set (participants a) then
                 Inr (True, s\<lparr>sample_activities :=
                   AList.update activity_name (a\<lparr>participants := participants a @ [email]\<rparr>)
                     (sample_activities s)\<rparr>)
               else Inr (False, s)
           | None \<Rightarrow> Inr (False, s)))"

text \<open>\<^verbatim>\<open>GET /activities\<close>.\<close>

definition get_activities :: "db_env \<Rightarrow> store \<Rightarrow> exn + activities" where
  "get_activities env s = get_activities_from_db env s"

text \<open>
  \<^verbatim>\<open>POST /activities/{activity_name}/signup\<close>: the response's \<^verbatim>\<open>message\<close> or the
  exception raised, and the state the request leaves.
\<close>

definition signup_for_activity :: "db_env \<Rightarrow> store \<Rightarrow> string \<Rightarrow> string
    \<Rightarrow> (exn + string) \<times> store" where
  "signup_for_activity env s activity_name email =
     (case get_activities_from_db env s of
        Inl e \<Rightarrow> (Inl e, s)
      | Inr activities \<Rightarrow>
          (case map_of activities activity_name of
             None \<Rightarrow> (Inl (HTTPException 404 ''Activity not found''), s)
           | Some activity \<Rightarrow>
               if email \<in> set (participants activity) then
                 (Inl (HTTPException 400 ''Student is already signed up''), s)
               else if int (length (participants activity)) \<ge> max_participants activity then
                 (Inl (HTTPException 400 ''Activity is full''), s)
               else
                 (case update_activity_in_db env s activity_name email of
                    Inl e \<Rightarrow> (Inl e, s)
                  | Inr (success, s') \<Rightarrow>
                      if success then
                        (Inr (''Signed up '' @ email @ '' for '' @ activity_name), s')
                      else
                        (Inl (HTTPException 500 ''Failed to sign up for activity''), s'))))"

section \<open>Properties of the store\<close>

text \<open>
  The pairs of name and activity that a collection stands for: each document without its
  \<^verbatim>\<open>name\<close> and \<^verbatim>\<open>_id\<close>, under its name.
\<close>

definition entries :: "stored_doc list \<Rightarrow> activities" where
  "entries coll = map (\<lambda>doc. (name doc, activity.truncate doc)) coll"

text \<open>
  The invariant of the data model: an activity has no more participants than
  \<^verbatim>\<open>max_participants\<close> and no participant twice. A store satisfies it when every
  activity of the in-memory dictionary and every document of the collection does.
\<close>

definition activity_inv :: "'a activity_scheme \<Rightarrow> bool" where
  "activity_inv a \<longleftrightarrow>
     int (length (participants a)) \<le> max_participants a \<and> distinct (participants a)"

definition store_inv :: "store \<Rightarrow> bool" where
  "store_inv s \<longleftrightarrow>
     list_all (\<lambda>(n, a). activity_inv a) (sample_activities s) \<and>
     (case activities_collection s of
        None \<Rightarrow> True
      | Some coll \<Rightarrow> list_all activity_inv coll)"

definition unique_names :: "store \<Rightarrow> bool" where
  "unique_names s \<longleftrightarrow>
     distinct (map fst (sample_activities s)) \<and>
     (case activities_collection s of
        None \<Rightarrow> True
      | Some coll \<Rightarrow> distinct (map name coll))"

definition store_no_duplicates :: "store \<Rightarrow> bool" where
  "store_no_duplicates s \<longleftrightarrow>
     list_all (\<lambda>(n, a). distinct (participants a)) (sample_activities s) \<and>
     (case activities_collection s of
        None \<Rightarrow> True
      | Some coll \<Rightarrow> list_all (\<lambda>d. distinct (participants d)) coll)"

text \<open>
  A request validates against the backend it writes to when there is no collection handle
  (both the fetch and the write use the in-memory dictionary) or the fetch from the
  collection does not raise. The backend answers a request when, in addition, the update
  does not raise.
\<close>

definition validates_against_backend :: "db_env \<Rightarrow> store \<Rightarrow> bool" where
  "validates_against_backend env s \<longleftrightarrow>
     activities_collection s = None \<or> \<not> find_raises env"

definition backend_answers :: "db_env \<Rightarrow> store \<Rightarrow> bool" where
  "backend_answers env s \<longleftrightarrow>
     activities_collection s = None \<or> (\<not> find_raises env \<and> \<not> update_raises env)"

text \<open>
  The activities the store holds: those of the collection when there is a collection
  handle, the in-memory dictionary otherwise. This is what a fetch returns when it does
  not raise.
\<close>

definition stored_activities :: "store \<Rightarrow> activities" where
  "stored_activities s =
     (case activities_collection s of
        Some coll \<Rightarrow> activities_dict coll
      | None \<Rightarrow> sample_activities s)"

section \<open>The dictionaries behind the records\<close>

text \<open>
  The records stand for Python dictionaries with string keys. An activity is the
  dictionary written in \<^verbatim>\<open>SAMPLE_ACTIVITIES\<close>, with its four keys. A stored document
  has the key \<^verbatim>\<open>_id\<close>, the key \<^verbatim>\<open>name\<close> and the activity's keys
  (\<^verbatim>\<open>{"name": name, **data}\<close>, to which MongoDB adds \<^verbatim>\<open>_id\<close>). \<^verbatim>\<open>pop\<close> removes a
  key of a dictionary.
\<close>

datatype field_value = Text string | Number int | Emails "string list" | ObjectId nat

type_synonym fields = "(string \<times> field_value) list"

definition activity_fields :: "activity \<Rightarrow> fields" where
  "activity_fields a =
     [(''description'', Text (description a)),
      (''schedule'', Text (schedule a)),
      (''max_participants'', Number (max_participants a)),
      (''participants'', Emails (participants a))]"

definition stored_fields :: "stored_doc \<Rightarrow> fields" where
  "stored_fields doc =
     (''_id'', ObjectId (oid doc)) # (''name'', Text (name doc)) #
       activity_fields (activity.truncate doc)"

definition pop :: "string \<Rightarrow> fields \<Rightarrow> fields" where
  "pop key d = AList.delete key d"

section \<open>Concrete stores and environments\<close>

text \<open>
  A startup at which every database call succeeds, a request during which the database
  answers, one during which only the update raises and one during which only the fetch
  raises.
\<close>

definition all_up :: startup_env where
  "all_up = \<lparr>ping_raises = False, count_raises = False, insert_raises = False\<rparr>"

definition healthy :: db_env where
  "healthy = \<lparr>find_raises = False, update_raises = False\<rparr>"

definition update_down :: db_env where
  "update_down = \<lparr>find_raises = False, update_raises = True\<rparr>"

definition fetch_down :: db_env where
  "fetch_down = \<lparr>find_raises = True, update_raises = False\<rparr>"

text \<open>The store of a process that started without a database, and of one that seeded it.\<close>

definition no_database :: store where
  "no_database = \<lparr>sample_activities = SAMPLE_ACTIVITIES, activities_collection = None\<rparr>"

definition seeded :: store where
  "seeded = startup_event all_up []"

text \<open>
  The seeded store after ten more students signed up for the Chess Club, which is then
  full (12 of 12), in database mode and in fallback mode.
\<close>

definition ten_students :: "string list" where
  "ten_students = [''s01@mergington.edu'', ''s02@mergington.edu'', ''s03@mergington.edu'',
     ''s04@mergington.edu'', ''s05@mergington.edu'', ''s06@mergington.edu'',
     ''s07@mergington.edu'', ''s08@mergington.edu'', ''s09@mergington.edu'',
     ''s10@mergington.edu'']"

definition chess_full :: store where
  "chess_full =
     fold (\<lambda>email s. snd (signup_for_activity healthy s ''Chess Club'' email)) ten_students
       seeded"

definition chess_full_memory :: store where
  "chess_full_memory =
     fold (\<lambda>email s. snd (signup_for_activity healthy s ''Chess Club'' email)) ten_students
       no_database"

definition chess_club :: activity where
  "chess_club = \<lparr>
     description = ''Learn strategies and compete in chess tournaments'',
     schedule = ''Fridays, 3:30 PM - 5:00 PM'',
     max_participants = 12,
     participants = [''michael@mergington.edu'', ''daniel@mergington.edu'']\<rparr>"

text \<open>The Chess Club with the ten students added: 12 of 12.\<close>

definition chess_club_full :: activity where
  "chess_club_full = chess_club\<lparr>participants := participants chess_club @ ten_students\<rparr>"

section \<open>Auxiliary facts\<close>

lemma update_fresh: "k \<notin> fst ` set al \<Longrightarrow> AList.update k v al = al @ [(k, v)]"
  by (induction al) auto

lemma fold_update_distinct:
  "distinct (map name coll) \<Longrightarrow> set (map name coll) \<inter> fst ` set acc = {} \<Longrightarrow>
   fold (\<lambda>doc d. AList.update (name doc) (activity.truncate doc) d) coll acc = acc @ entries coll"
proof (induction coll arbitrary: acc)
  case Nil
  then show ?case by (simp add: entries_def)
next
  case (Cons d ds)
  have fresh: "name d \<notin> fst ` set acc" using Cons.prems(2) by auto
  have "set (map name ds) \<inter> fst ` set (acc @ [(name d, activity.truncate d)]) = {}"
    using Cons.prems by auto
  with Cons.IH [of "acc @ [(name d, activity.truncate d)]"] Cons.prems(1) fresh
  show ?case by (simp add: update_fresh entries_def)
qed

lemma activities_dict_distinct:
  "distinct (map name coll) \<Longrightarrow> activities_dict coll = entries coll"
  using fold_update_distinct [of coll "[]"] by (simp add: activities_dict_def)

lemma truncate_sel [simp]:
  "description (activity.truncate d) = description d"
  "schedule (activity.truncate d) = schedule d"
  "max_participants (activity.truncate d) = max_participants d"
  "participants (activity.truncate d) = participants d"
  by (simp_all add: activity.truncate_def)

lemma truncate_participants_update:
  "activity.truncate (d\<lparr>participants := ps\<rparr>) = (activity.truncate d)\<lparr>participants := ps\<rparr>"
  by (simp add: activity.truncate_def)

lemma activity_inv_truncate [simp]: "activity_inv (activity.truncate d) = activity_inv d"
  by (simp add: activity_inv_def)

lemma activity_inv_append:
  "e \<notin> set (participants a) \<Longrightarrow> int (length (participants a)) < max_participants a \<Longrightarrow>
   activity_inv a \<Longrightarrow> activity_inv (a\<lparr>participants := participants a @ [e]\<rparr>)"
  by (simp add: activity_inv_def)

lemma addToSet_one_names: "map name (snd (addToSet_one n e coll)) = map name coll"
  by (induction coll) (auto split: prod.splits)

lemma addToSet_one_absent:
  "n \<notin> set (map name coll) \<Longrightarrow> addToSet_one n e coll = (0, coll)"
  by (induction coll) auto

lemma addToSet_one_count:
  "fst (addToSet_one n e coll) = 0 \<or> fst (addToSet_one n e coll) = 1"
  by (induction coll) (auto split: prod.splits)

lemma participants_append_neq:
  "a\<lparr>participants := participants a @ [e]\<rparr> \<noteq> a"
proof
  assume "a\<lparr>participants := participants a @ [e]\<rparr> = a"
  then have "participants (a\<lparr>participants := participants a @ [e]\<rparr>) = participants a"
    by (rule arg_cong)
  then show False by simp
qed

lemma addToSet_one_unchanged:
  "fst (addToSet_one n e coll) = 0 \<longleftrightarrow> snd (addToSet_one n e coll) = coll"
  by (induction coll) (auto simp add: participants_append_neq split: prod.splits)

lemma addToSet_one_entries:
  "map_of (entries coll) n = Some a \<Longrightarrow> e \<notin> set (participants a) \<Longrightarrow>
   fst (addToSet_one n e coll) = 1 \<and>
   map_of (entries (snd (addToSet_one n e coll))) =
     (map_of (entries coll))(n \<mapsto> a\<lparr>participants := participants a @ [e]\<rparr>)"
proof (induction coll)
  case Nil
  then show ?case by (simp add: entries_def)
next
  case (Cons d ds)
  show ?case
  proof (cases "name d = n")
    case True
    with Cons.prems show ?thesis
      by (auto simp add: entries_def truncate_participants_update)
  next
    case False
    with Cons.prems have "map_of (entries ds) n = Some a" by (simp add: entries_def)
    from Cons.IH [OF this Cons.prems(2)] False show ?thesis
      by (auto simp add: entries_def split: prod.splits)
  qed
qed

lemma addToSet_one_inv:
  "list_all activity_inv coll \<Longrightarrow> map_of (entries coll) n = Some a \<Longrightarrow>
   e \<notin> set (participants a) \<Longrightarrow> int (length (participants a)) < max_participants a \<Longrightarrow>
   list_all activity_inv (snd (addToSet_one n e coll))"
proof (induction coll)
  case Nil
  then show ?case by simp
next
  case (Cons d ds)
  show ?case
  proof (cases "name d = n")
    case True
    with Cons.prems have a: "a = activity.truncate d" by (simp add: entries_def)
    with Cons.prems True show ?thesis
      by (simp add: activity_inv_def)
  next
    case False
    with Cons.prems have "map_of (entries ds) n = Some a" by (simp add: entries_def)
    with Cons.IH Cons.prems False show ?thesis
      by (auto split: prod.splits)
  qed
qed

lemma addToSet_one_distinct:
  "list_all (\<lambda>d. distinct (participants d)) coll \<Longrightarrow>
   list_all (\<lambda>d. distinct (participants d)) (snd (addToSet_one n e coll))"
  by (induction coll) (auto split: prod.splits)

lemma get_fallback:
  "activities_collection s = None \<Longrightarrow> get_activities_from_db env s = Inr (sample_activities s)"
  by (simp add: get_activities_from_db_def)

lemma get_fetch_raises:
  "find_raises env \<Longrightarrow> get_activities_from_db env s = Inr (sample_activities s)"
  by (simp add: get_activities_from_db_def to_list_def split: option.splits)

lemma get_collection:
  "activities_collection s = Some coll \<Longrightarrow> \<not> find_raises env \<Longrightarrow>
   get_activities_from_db env s = Inr (activities_dict coll)"
  by (simp add: get_activities_from_db_def to_list_def)

lemma get_total: "\<exists>activities. get_activities_from_db env s = Inr activities"
  by (simp add: get_activities_from_db_def to_list_def split: option.splits)

lemma fold_update_keys_distinct:
  "distinct (map fst acc) \<Longrightarrow>
   distinct (map fst (fold (\<lambda>doc d. AList.update (name doc) (activity.truncate doc) d) coll acc))"
  by (induction coll arbitrary: acc) (simp_all add: AList.distinct_update)

lemma activities_dict_keys_distinct: "distinct (map fst (activities_dict coll))"
  using fold_update_keys_distinct [of "[]" coll] by (simp add: activities_dict_def)

lemma update_total:
  "\<exists>success s'. update_activity_in_db env s n e = Inr (success, s')"
  by (cases "addToSet_one n e (the (activities_collection s))")
    (auto simp add: update_activity_in_db_def update_one_def split: option.splits)

lemma store_collection_neq:
  "coll' \<noteq> coll \<Longrightarrow> activities_collection s = Some coll \<Longrightarrow>
   s\<lparr>activities_collection := Some coll'\<rparr> \<noteq> s"
proof
  assume a: "coll' \<noteq> coll" "activities_collection s = Some coll"
    and "s\<lparr>activities_collection := Some coll'\<rparr> = s"
  then have "activities_collection (s\<lparr>activities_collection := Some coll'\<rparr>) = activities_collection s"
    by simp
  with a show False by simp
qed

lemma store_sample_neq:
  "map_of (sample_activities s) n = Some a \<Longrightarrow> a' \<noteq> a \<Longrightarrow>
   s\<lparr>sample_activities := AList.update n a' (sample_activities s)\<rparr> \<noteq> s"
proof
  assume a: "map_of (sample_activities s) n = Some a" "a' \<noteq> a"
    and "s\<lparr>sample_activities := AList.update n a' (sample_activities s)\<rparr> = s"
  then have "sample_activities (s\<lparr>sample_activities := AList.update n a' (sample_activities s)\<rparr>)
      = sample_activities s"
    by simp
  then have "AList.update n a' (sample_activities s) = sample_activities s" by simp
  then have "map_of (AList.update n a' (sample_activities s)) n = map_of (sample_activities s) n"
    by simp
  with a show False by (simp add: AList.update_conv')
qed

lemma update_collection_changed:
  assumes "activities_collection s = Some coll"
  shows "update_activity_in_db env s n e = Inr (success, s') \<Longrightarrow> success = (s' \<noteq> s)"
proof (cases "update_raises env")
  case True
  assume "update_activity_in_db env s n e = Inr (success, s')"
  with True assms show ?thesis
    by (auto simp add: update_activity_in_db_def update_one_def)
next
  case False
  assume r: "update_activity_in_db env s n e = Inr (success, s')"
  obtain c coll' where ac: "addToSet_one n e coll = (c, coll')" by (cases "addToSet_one n e coll")
  with r False assms have s': "s' = s\<lparr>activities_collection := Some coll'\<rparr>" and su: "success = (c > 0)"
    by (auto simp add: update_activity_in_db_def update_one_def)
  from addToSet_one_unchanged [of n e coll] ac have "(c = 0) = (coll' = coll)" by simp
  show ?thesis
  proof (cases "c = 0")
    case True
    with \<open>(c = 0) = (coll' = coll)\<close> have "coll' = coll" by simp
    with assms s' have "s' = s" by simp
    with su True show ?thesis by simp
  next
    case False
    with \<open>(c = 0) = (coll' = coll)\<close> have "coll' \<noteq> coll" by simp
    from store_collection_neq [OF this assms] s' have "s' \<noteq> s" by simp
    with su False show ?thesis by simp
  qed
qed

lemma update_fallback_changed:
  assumes "activities_collection s = None"
  shows "update_activity_in_db env s n e = Inr (success, s') \<Longrightarrow> success = (s' \<noteq> s)"
proof -
  assume r: "update_activity_in_db env s n e = Inr (success, s')"
  show ?thesis
  proof (cases "map_of (sample_activities s) n")
    case None
    with r assms show ?thesis by (auto simp add: update_activity_in_db_def)
  next
    case (Some a)
    show ?thesis
    proof (cases "e \<in> set (participants a)")
      case True
      with r assms Some show ?thesis by (auto simp add: update_activity_in_db_def)
    next
      case False
      with r assms Some have su: "success"
        and s': "s' = s\<lparr>sample_activities :=
           AList.update n (a\<lparr>participants := participants a @ [e]\<rparr>) (sample_activities s)\<rparr>"
        by (auto simp add: update_activity_in_db_def)
      from store_sample_neq [OF Some participants_append_neq] s' have "s' \<noteq> s" by simp
      with su show ?thesis by simp
    qed
  qed
qed

lemma sample_chess_club: "map_of SAMPLE_ACTIVITIES ''Chess Club'' = Some chess_club"
  by (simp add: SAMPLE_ACTIVITIES_def chess_club_def)

lemma chess_full_memory_value:
  "chess_full_memory = \<lparr>sample_activities =
       AList.update ''Chess Club'' (chess_club\<lparr>participants := participants chess_club @ ten_students\<rparr>)
         SAMPLE_ACTIVITIES,
     activities_collection = None\<rparr>"
  by code_simp

lemma entries_insert_many:
  "entries (insert_many (map (\<lambda>(name, data). activity.extend data (activity_doc.fields name)) al))
     = al"
proof -
  have "\<And>k. map (\<lambda>doc. (name doc, activity.truncate doc))
      (map (\<lambda>(i, doc). activity_doc.extend doc (stored_doc.fields i))
        (enumerate k (map (\<lambda>(name, data). activity.extend data (activity_doc.fields name)) al)))
     = al"
  proof (induction al)
    case Nil
    show ?case by simp
  next
    case (Cons p ps)
    obtain n a where p: "p = (n, a)" by (cases p)
    have "name (activity_doc.extend (activity.extend a (activity_doc.fields n)) (stored_doc.fields k)) = n"
      by (simp add: activity_doc.extend_def activity.extend_def activity_doc.fields_def
          stored_doc.fields_def activity.defs activity_doc.defs)
    moreover have "activity.truncate
        (activity_doc.extend (activity.extend a (activity_doc.fields n)) (stored_doc.fields k)) = a"
      by (simp add: activity_doc.extend_def activity.extend_def activity_doc.fields_def
          stored_doc.fields_def activity.truncate_def)
    ultimately show ?case using Cons.IH [of "Suc k"] p by simp
  qed
  then show ?thesis by (simp add: entries_def insert_many_def)
qed

lemma seeded_collection:
  "\<exists>coll. activities_collection seeded = Some coll \<and> entries coll = SAMPLE_ACTIVITIES"
  by (simp add: seeded_def startup_event_def all_up_def entries_insert_many)

lemma sample_names_distinct: "distinct (map fst SAMPLE_ACTIVITIES)"
  by (simp add: SAMPLE_ACTIVITIES_def)

lemma sample_of_seeded: "sample_activities seeded = SAMPLE_ACTIVITIES"
  by (simp add: seeded_def startup_event_def all_up_def)

lemma entries_names: "map fst (entries coll) = map name coll"
  by (simp add: entries_def comp_def)

lemma entries_values: "map snd (entries coll) = map activity.truncate coll"
  by (simp add: entries_def comp_def)

lemma seeded_fetch:
  "\<not> find_raises env \<Longrightarrow> get_activities_from_db env seeded = Inr SAMPLE_ACTIVITIES"
proof -
  assume nf: "\<not> find_raises env"
  obtain coll where c: "activities_collection seeded = Some coll"
    and e: "entries coll = SAMPLE_ACTIVITIES"
    using seeded_collection by blast
  have "distinct (map name coll)"
    using sample_names_distinct e entries_names [of coll] by simp
  then have "activities_dict coll = SAMPLE_ACTIVITIES"
    using e by (simp add: activities_dict_distinct)
  with get_collection [OF c nf] show ?thesis by simp
qed

lemma signup_state:
  "snd (signup_for_activity env s n e) = s \<or>
   (\<exists>activities a success.
      get_activities_from_db env s = Inr activities \<and> map_of activities n = Some a \<and>
      e \<notin> set (participants a) \<and> int (length (participants a)) < max_participants a \<and>
      update_activity_in_db env s n e = Inr (success, snd (signup_for_activity env s n e)))"
proof -
  obtain activities where g: "get_activities_from_db env s = Inr activities"
    using get_total by blast
  obtain success s' where u: "update_activity_in_db env s n e = Inr (success, s')"
    using update_total by blast
  show ?thesis
  proof (cases "map_of activities n")
    case None
    with g show ?thesis by (simp add: signup_for_activity_def)
  next
    case (Some a)
    with g u show ?thesis by (simp add: signup_for_activity_def)
  qed
qed

lemma list_all_update:
  "list_all P al \<Longrightarrow> P (k, v) \<Longrightarrow> list_all P (AList.update k v al)"
  by (induction al) auto

lemma list_all_map_of:
  "list_all (\<lambda>(n, a). P a) al \<Longrightarrow> map_of al k = Some v \<Longrightarrow> P v"
  by (induction al) (auto split: if_splits)

lemma list_all_entries:
  "list_all (\<lambda>(n, a). activity_inv a) (entries coll) = list_all activity_inv coll"
  by (induction coll) (simp_all add: entries_def)

lemma update_no_duplicates:
  assumes "store_no_duplicates s"
    and "update_activity_in_db env s n e = Inr (success, s')"
  shows "store_no_duplicates s'"
proof (cases "activities_collection s")
  case None
  show ?thesis
  proof (cases "map_of (sample_activities s) n")
    case None
    with assms \<open>activities_collection s = None\<close> show ?thesis
      by (simp add: update_activity_in_db_def)
  next
    case (Some a)
    have da: "distinct (participants a)"
      using assms(1) Some list_all_map_of [of "\<lambda>a. distinct (participants a)" "sample_activities s" n a]
      by (simp add: store_no_duplicates_def)
    show ?thesis
    proof (cases "e \<in> set (participants a)")
      case True
      with assms Some \<open>activities_collection s = None\<close> show ?thesis
        by (simp add: update_activity_in_db_def)
    next
      case False
      with assms Some \<open>activities_collection s = None\<close>
      have s': "s' = s\<lparr>sample_activities :=
          AList.update n (a\<lparr>participants := participants a @ [e]\<rparr>) (sample_activities s)\<rparr>"
        by (simp add: update_activity_in_db_def)
      have "list_all (\<lambda>(n, a). distinct (participants a))
          (AList.update n (a\<lparr>participants := participants a @ [e]\<rparr>) (sample_activities s))"
        using assms(1) da False by (intro list_all_update) (simp_all add: store_no_duplicates_def)
      with s' assms(1) \<open>activities_collection s = None\<close> show ?thesis
        by (simp add: store_no_duplicates_def)
    qed
  qed
next
  case (Some coll)
  show ?thesis
  proof (cases "update_raises env")
    case True
    with assms Some show ?thesis by (simp add: update_activity_in_db_def update_one_def)
  next
    case False
    obtain c coll' where ac: "addToSet_one n e coll = (c, coll')" by (cases "addToSet_one n e coll")
    with assms False Some have s': "s' = s\<lparr>activities_collection := Some coll'\<rparr>"
      by (simp add: update_activity_in_db_def update_one_def)
    from assms(1) Some have "list_all (\<lambda>d. distinct (participants d)) coll"
      by (simp add: store_no_duplicates_def)
    from addToSet_one_distinct [OF this, of n e] ac
    have "list_all (\<lambda>d. distinct (participants d)) coll'" by simp
    with s' assms(1) show ?thesis by (simp add: store_no_duplicates_def)
  qed
qed

lemma signup_no_duplicates:
  "store_no_duplicates s \<Longrightarrow> store_no_duplicates (snd (signup_for_activity env s n e))"
  using signup_state [of env s n e] update_no_duplicates by auto

lemma update_invariant:
  assumes "store_inv s" and "unique_names s" and "validates_against_backend env s"
    and "get_activities_from_db env s = Inr activities"
    and "map_of activities n = Some a"
    and "e \<notin> set (participants a)"
    and "int (length (participants a)) < max_participants a"
    and "update_activity_in_db env s n e = Inr (success, s')"
  shows "store_inv s' \<and> unique_names s'"
proof (cases "activities_collection s")
  case None
  with assms(4) have acts: "activities = sample_activities s" by (simp add: get_fallback)
  with assms(5) have look: "map_of (sample_activities s) n = Some a" by simp
  let ?a' = "a\<lparr>participants := participants a @ [e]\<rparr>"
  from assms(8) None look assms(6)
  have s': "s' = s\<lparr>sample_activities := AList.update n ?a' (sample_activities s)\<rparr>"
    by (simp add: update_activity_in_db_def)
  have "activity_inv a"
    using assms(1) look list_all_map_of [of activity_inv "sample_activities s" n a]
    by (simp add: store_inv_def)
  then have "activity_inv ?a'" using assms(6,7) by (simp add: activity_inv_append)
  then have "list_all (\<lambda>(n, a). activity_inv a) (AList.update n ?a' (sample_activities s))"
    using assms(1) by (intro list_all_update) (simp_all add: store_inv_def)
  moreover have "distinct (map fst (AList.update n ?a' (sample_activities s)))"
    using assms(2) by (simp add: unique_names_def AList.distinct_update)
  ultimately show ?thesis using s' None by (simp add: store_inv_def unique_names_def)
next
  case (Some coll)
  with assms(3) have nf: "\<not> find_raises env" by (simp add: validates_against_backend_def)
  from assms(2) Some have d: "distinct (map name coll)" by (simp add: unique_names_def)
  from get_collection [OF Some nf] assms(4) d have acts: "activities = entries coll"
    by (simp add: activities_dict_distinct)
  show ?thesis
  proof (cases "update_raises env")
    case True
    with assms(1,2,8) Some show ?thesis by (simp add: update_activity_in_db_def update_one_def)
  next
    case False
    obtain c coll' where ac: "addToSet_one n e coll = (c, coll')" by (cases "addToSet_one n e coll")
    with assms(8) False Some have s': "s' = s\<lparr>activities_collection := Some coll'\<rparr>"
      by (simp add: update_activity_in_db_def update_one_def)
    from assms(1) Some have inv: "list_all activity_inv coll" by (simp add: store_inv_def)
    from assms(5) acts have look: "map_of (entries coll) n = Some a" by simp
    from addToSet_one_inv [OF inv look assms(6,7)] ac have "list_all activity_inv coll'" by simp
    moreover from addToSet_one_names [of n e coll] ac d have "distinct (map name coll')" by simp
    ultimately show ?thesis using s' assms(1,2) by (simp add: store_inv_def unique_names_def)
  qed
qed

lemma signup_invariant:
  assumes "store_inv s" and "unique_names s" and "validates_against_backend env s"
  shows "store_inv (snd (signup_for_activity env s n e)) \<and>
         unique_names (snd (signup_for_activity env s n e))"
  using signup_state [of env s n e] assms update_invariant [OF assms] by auto

lemma sample_inv: "list_all (\<lambda>(n, a). activity_inv a) SAMPLE_ACTIVITIES"
  by (simp add: SAMPLE_ACTIVITIES_def activity_inv_def)

lemma startup_invariant:
  "store_inv (startup_event senv []) \<and> unique_names (startup_event senv [])"
proof -
  let ?coll = "insert_many (map (\<lambda>(name, data). activity.extend data (activity_doc.fields name))
      SAMPLE_ACTIVITIES)"
  have "list_all activity_inv ?coll"
    using list_all_entries [of ?coll] sample_inv by (simp add: entries_insert_many)
  moreover have "distinct (map name ?coll)"
    using entries_names [of ?coll] sample_names_distinct by (simp add: entries_insert_many)
  ultimately show ?thesis
    using sample_inv sample_names_distinct
    by (simp add: startup_event_def store_inv_def unique_names_def)
qed

lemma seeded_names: "unique_names seeded"
  using startup_invariant [of all_up] by (simp add: seeded_def)

lemma seeded_inv: "store_inv seeded"
  using startup_invariant [of all_up] by (simp add: seeded_def)

lemma seeded_handle: "activities_collection seeded \<noteq> None"
  by (simp add: seeded_def startup_event_def all_up_def)

lemma pop_stored_fields:
  "pop ''_id'' (pop ''name'' (stored_fields doc)) = activity_fields (activity.truncate doc)"
  by (simp add: pop_def stored_fields_def activity_fields_def)

lemma activity_fields_keys:
  "map fst (activity_fields a) = [''description'', ''schedule'', ''max_participants'', ''participants'']"
  by (simp add: activity_fields_def)

lemma fetch_is_store:
  "validates_against_backend env s \<Longrightarrow> get_activities_from_db env s = Inr (stored_activities s)"
  by (auto simp add: validates_against_backend_def stored_activities_def get_fallback get_collection
      split: option.splits)

lemma chess_full_handle:
  "activities_collection chess_full = Some (the (activities_collection chess_full))"
  by code_simp

lemma chess_full_names: "distinct (map name (the (activities_collection chess_full)))"
  by code_simp

lemma chess_full_entries:
  "entries (the (activities_collection chess_full)) =
     AList.update ''Chess Club'' chess_club_full SAMPLE_ACTIVITIES"
  by code_simp

lemma chess_full_sample: "sample_activities chess_full = SAMPLE_ACTIVITIES"
  by code_simp

lemma chess_full_stored:
  "stored_activities chess_full = AList.update ''Chess Club'' chess_club_full SAMPLE_ACTIVITIES"
  using chess_full_handle chess_full_names chess_full_entries
  by (metis (no_types, lifting) activities_dict_distinct option.simps(5) stored_activities_def)

lemma chess_full_chess_club:
  "map_of (stored_activities chess_full) ''Chess Club'' = Some chess_club_full"
  by (simp add: chess_full_stored AList.update_conv')

lemma signup_rejects_registered_email:
  assumes "get_activities_from_db env s = Inr activities"
    and "map_of activities activity_name = Some activity"
    and "email \<in> set (participants activity)"
  shows "fst (signup_for_activity env s activity_name email) =
           Inl (HTTPException 400 ''Student is already signed up'') \<and>
         snd (signup_for_activity env s activity_name email) = s \<and>
         get_activities_from_db env (snd (signup_for_activity env s activity_name email)) =
           Inr activities"
  using assms by (simp add: signup_for_activity_def)

lemma signup_rejects_full_activity:
  assumes "get_activities_from_db env s = Inr activities"
    and "map_of activities activity_name = Some activity"
    and "email \<notin> set (participants activity)"
    and "int (length (participants activity)) \<ge> max_participants activity"
  shows "fst (signup_for_activity env s activity_name email) =
           Inl (HTTPException 400 ''Activity is full'') \<and>
         snd (signup_for_activity env s activity_name email) = s"
  using assms by (simp add: signup_for_activity_def)

lemma signup_already_signed_up_in_store:
  assumes "validates_against_backend env s"
    and "map_of (stored_activities s) activity_name = Some activity"
    and "email \<in> set (participants activity)"
  shows "signup_for_activity env s activity_name email =
           (Inl (HTTPException 400 ''Student is already signed up''), s)"
  using fetch_is_store [OF assms(1)] assms(2,3) by (simp add: signup_for_activity_def)

lemma signup_activity_full_in_store:
  assumes "validates_against_backend env s"
    and "map_of (stored_activities s) activity_name = Some activity"
    and "email \<notin> set (participants activity)"
    and "int (length (participants activity)) \<ge> max_participants activity"
  shows "signup_for_activity env s activity_name email =
           (Inl (HTTPException 400 ''Activity is full''), s)"
  using fetch_is_store [OF assms(1)] assms(2-4) by (simp add: signup_for_activity_def)

lemma invariant_on_consistent_paths:
  "store_inv (startup_event senv []) \<and> unique_names (startup_event senv []) \<and>
   (store_no_duplicates s \<longrightarrow>
      store_no_duplicates (snd (signup_for_activity env s activity_name email))) \<and>
   (store_inv s \<and> unique_names s \<and> validates_against_backend env s \<longrightarrow>
      store_inv (snd (signup_for_activity env s activity_name email)) \<and>
      unique_names (snd (signup_for_activity env s activity_name email)))"
  using startup_invariant signup_no_duplicates signup_invariant by blast

section \<open>Listing activities\<close>

text \<open>
  Claim C8. \<^verbatim>\<open>GET /activities\<close> never fails: in every store state and whatever the
  database does, it returns a mapping from activity names to activities. When there is no
  collection handle or the fetch raises, the mapping is the in-memory dictionary; when the
  fetch succeeds, it is the dictionary built from the documents, with each name once.
\<close>

theorem list_activities_never_fails:
  "\<exists>activities. get_activities env s = Inr activities \<and>
     (activities_collection s = None \<or> find_raises env \<longrightarrow> activities = sample_activities s) \<and>
     (\<forall>coll. activities_collection s = Some coll \<and> \<not> find_raises env \<longrightarrow>
        activities = activities_dict coll \<and> distinct (map fst activities))"
proof (cases "activities_collection s")
  case None
  then show ?thesis by (simp add: get_activities_def get_fallback)
next
  case (Some coll)
  show ?thesis
  proof (cases "find_raises env")
    case True
    then show ?thesis by (simp add: get_activities_def get_fetch_raises Some)
  next
    case False
    with Some show ?thesis
      by (simp add: get_activities_def get_collection activities_dict_keys_distinct)
  qed
qed

theorem list_activities_never_fails_witness:
  "find_raises fetch_down \<and> get_activities fetch_down seeded = Inr SAMPLE_ACTIVITIES"
proof -
  have h: "find_raises fetch_down" by (simp add: fetch_down_def)
  have "sample_activities seeded = SAMPLE_ACTIVITIES"
    by (simp add: seeded_def startup_event_def all_up_def)
  with h list_activities_never_fails [of fetch_down seeded] show ?thesis by auto
qed

text \<open>
  Claim C9. Listing from the collection returns, for each document, its name as the key and
  the document without \<^verbatim>\<open>name\<close> and \<^verbatim>\<open>_id\<close> as the value; listing from the fallback
  returns the in-memory dictionary. In both mappings every activity has exactly the keys
  description, schedule, max_participants and participants. With the same names in both
  backends the two mappings have the same keys, and with the same activity data they are the
  same mapping. Names in the collection are unique.
\<close>

theorem listing_same_shape:
  assumes "activities_collection s = Some coll"
    and "distinct (map name coll)"
    and "\<not> find_raises env"
  shows "\<exists>from_db from_memory.
     get_activities env s = Inr from_db \<and>
     get_activities env (s\<lparr>activities_collection := None\<rparr>) = Inr from_memory \<and>
     from_db = map (\<lambda>doc. (name doc, activity.truncate doc)) coll \<and>
     from_memory = sample_activities s \<and>
     map (\<lambda>(n, a). (n, activity_fields a)) from_db =
       map (\<lambda>doc. (name doc, pop ''_id'' (pop ''name'' (stored_fields doc)))) coll \<and>
     (\<forall>(n, a) \<in> set from_db \<union> set from_memory.
        map fst (activity_fields a) =
          [''description'', ''schedule'', ''max_participants'', ''participants'']) \<and>
     (map name coll = map fst (sample_activities s) \<longrightarrow> map fst from_db = map fst from_memory) \<and>
     (entries coll = sample_activities s \<longrightarrow> from_db = from_memory)"
proof -
  have db: "get_activities env s = Inr (entries coll)"
    using get_collection [OF assms(1,3)] assms(2)
    by (simp add: get_activities_def activities_dict_distinct)
  have mem: "get_activities env (s\<lparr>activities_collection := None\<rparr>) = Inr (sample_activities s)"
    by (simp add: get_activities_def get_activities_from_db_def)
  have strip: "map (\<lambda>(n, a). (n, activity_fields a)) (entries coll) =
       map (\<lambda>doc. (name doc, pop ''_id'' (pop ''name'' (stored_fields doc)))) coll"
    by (simp add: entries_def pop_stored_fields)
  have keys: "\<forall>(n, a) \<in> set (entries coll) \<union> set (sample_activities s).
        map fst (activity_fields a) =
          [''description'', ''schedule'', ''max_participants'', ''participants'']"
    by (simp add: activity_fields_keys split_def)
  have names: "map name coll = map fst (sample_activities s) \<longrightarrow>
      map fst (entries coll) = map fst (sample_activities s)"
    by (simp add: entries_names)
  from db mem strip keys names show ?thesis
    unfolding entries_def by blast
qed

theorem listing_same_shape_witness:
  "get_activities healthy chess_full =
     Inr (AList.update ''Chess Club'' chess_club_full SAMPLE_ACTIVITIES) \<and>
   get_activities healthy (chess_full\<lparr>activities_collection := None\<rparr>) = Inr SAMPLE_ACTIVITIES \<and>
   map fst (AList.update ''Chess Club'' chess_club_full SAMPLE_ACTIVITIES) =
     map fst SAMPLE_ACTIVITIES \<and>
   AList.update ''Chess Club'' chess_club_full SAMPLE_ACTIVITIES \<noteq> SAMPLE_ACTIVITIES"
proof -
  have nf: "\<not> find_raises healthy" by (simp add: healthy_def)
  have differ: "AList.update ''Chess Club'' chess_club_full SAMPLE_ACTIVITIES \<noteq> SAMPLE_ACTIVITIES"
    by code_simp
  have keys: "map fst (AList.update ''Chess Club'' chess_club_full SAMPLE_ACTIVITIES) =
      map fst SAMPLE_ACTIVITIES"
    by (simp add: AList.update_keys SAMPLE_ACTIVITIES_def)
  from listing_same_shape [OF chess_full_handle chess_full_names nf, unfolded entries_def [symmetric]]
  have "get_activities healthy chess_full = Inr (entries (the (activities_collection chess_full)))"
    and "get_activities healthy (chess_full\<lparr>activities_collection := None\<rparr>) =
      Inr (sample_activities chess_full)"
    by auto
  with chess_full_entries chess_full_sample keys differ show ?thesis by simp
qed

section \<open>Adding a participant\<close>

text \<open>
  Claim C7. \<^verbatim>\<open>update_activity_in_db\<close> never raises: for every activity name and email
  it returns a boolean, and the boolean is true exactly when the state of the store after the
  call differs from the state before it. When the update of the collection raises, the
  result is false and nothing has changed.
\<close>

theorem update_activity_in_db_never_raises:
  "\<exists>success s'. update_activity_in_db env s activity_name email = Inr (success, s') \<and>
     (success \<longleftrightarrow> s' \<noteq> s) \<and>
     (activities_collection s \<noteq> None \<and> update_raises env \<longrightarrow> \<not> success \<and> s' = s)"
proof -
  obtain success s' where r: "update_activity_in_db env s activity_name email = Inr (success, s')"
    using update_total by blast
  have ch: "success \<longleftrightarrow> s' \<noteq> s"
  proof (cases "activities_collection s")
    case None
    from update_fallback_changed [OF None r] show ?thesis .
  next
    case (Some coll)
    from update_collection_changed [OF Some r] show ?thesis .
  qed
  have "activities_collection s \<noteq> None \<and> update_raises env \<longrightarrow> \<not> success \<and> s' = s"
    using r by (auto simp add: update_activity_in_db_def update_one_def)
  with r ch show ?thesis by blast
qed

theorem update_activity_in_db_never_raises_witness:
  "activities_collection seeded \<noteq> None \<and> update_raises update_down \<and>
   update_activity_in_db update_down seeded ''Chess Club'' ''new@mergington.edu'' = Inr (False, seeded)"
proof -
  have h: "activities_collection seeded \<noteq> None \<and> update_raises update_down"
    by (simp add: seeded_def startup_event_def all_up_def update_down_def)
  with update_activity_in_db_never_raises [of update_down seeded "''Chess Club''" "''new@mergington.edu''"]
  show ?thesis by auto
qed

text \<open>
  Claim C10. In the in-memory fallback path, a successful add of an email to an activity
  changes only that activity's participants: the names of the dictionary and every other
  activity are unchanged, and the named activity keeps its description, schedule and
  max_participants, with the email appended to its participants.
\<close>

theorem fallback_add_frame:
  assumes "activities_collection s = None"
    and "update_activity_in_db env s activity_name email = Inr (True, s')"
  shows "activities_collection s' = None \<and>
         map fst (sample_activities s') = map fst (sample_activities s) \<and>
         (\<forall>other. other \<noteq> activity_name \<longrightarrow>
            map_of (sample_activities s') other = map_of (sample_activities s) other) \<and>
         (\<exists>a a'. map_of (sample_activities s) activity_name = Some a \<and>
            map_of (sample_activities s') activity_name = Some a' \<and>
            description a' = description a \<and> schedule a' = schedule a \<and>
            max_participants a' = max_participants a \<and>
            participants a' = participants a @ [email])"
proof (cases "map_of (sample_activities s) activity_name")
  case None
  with assms show ?thesis by (simp add: update_activity_in_db_def)
next
  case (Some a)
  let ?a' = "a\<lparr>participants := participants a @ [email]\<rparr>"
  from assms Some have ne: "email \<notin> set (participants a)"
    by (auto simp add: update_activity_in_db_def split: if_splits)
  with assms Some have s': "s' = s\<lparr>sample_activities :=
      AList.update activity_name ?a' (sample_activities s)\<rparr>"
    by (simp add: update_activity_in_db_def)
  have key: "activity_name \<in> set (map fst (sample_activities s))"
    using Some by (metis map_of_eq_None_iff option.distinct(1) set_map)
  have keys: "map fst (sample_activities s') = map fst (sample_activities s)"
    using key s' by (simp add: AList.update_keys)
  have others: "\<forall>other. other \<noteq> activity_name \<longrightarrow>
      map_of (sample_activities s') other = map_of (sample_activities s) other"
    using s' by (simp add: AList.update_conv')
  have this_one: "map_of (sample_activities s') activity_name = Some ?a'"
    using s' by (simp add: AList.update_conv')
  from assms(1) s' keys others this_one Some show ?thesis by simp
qed

theorem fallback_add_frame_witness:
  "activities_collection no_database = None \<and>
   (\<exists>s'. update_activity_in_db healthy no_database ''Chess Club'' ''new@mergington.edu''
       = Inr (True, s') \<and>
     map_of (sample_activities s') ''Gym Class'' = map_of SAMPLE_ACTIVITIES ''Gym Class'' \<and>
     map_of (sample_activities s') ''Chess Club'' =
       Some (chess_club\<lparr>participants := participants chess_club @ [''new@mergington.edu'']\<rparr>))"
proof -
  have n: "activities_collection no_database = None" by (simp add: no_database_def)
  have sa: "sample_activities no_database = SAMPLE_ACTIVITIES" by (simp add: no_database_def)
  have absent: "''new@mergington.edu'' \<notin> set (participants chess_club)"
    by (simp add: chess_club_def)
  obtain s' where u: "update_activity_in_db healthy no_database ''Chess Club'' ''new@mergington.edu''
      = Inr (True, s')"
    using n sa sample_chess_club absent by (simp add: update_activity_in_db_def)
  from fallback_add_frame [OF n u] sa sample_chess_club
  have "map_of (sample_activities s') ''Gym Class'' = map_of SAMPLE_ACTIVITIES ''Gym Class''"
    and "\<exists>a'. map_of (sample_activities s') ''Chess Club'' = Some a' \<and>
            description a' = description chess_club \<and> schedule a' = schedule chess_club \<and>
            max_participants a' = max_participants chess_club \<and>
            participants a' = participants chess_club @ [''new@mergington.edu'']"
    by auto
  then obtain a' where a': "map_of (sample_activities s') ''Chess Club'' = Some a'"
    and f: "description a' = description chess_club" "schedule a' = schedule chess_club"
      "max_participants a' = max_participants chess_club"
      "participants a' = participants chess_club @ [''new@mergington.edu'']"
    and g: "map_of (sample_activities s') ''Gym Class'' = map_of SAMPLE_ACTIVITIES ''Gym Class''"
    by blast
  from f have "a' = chess_club\<lparr>participants := participants chess_club @ [''new@mergington.edu'']\<rparr>"
    by (cases a') (simp add: chess_club_def)
  with a' g u n show ?thesis by blast
qed

section \<open>Signing up: the validation chain\<close>

text \<open>
  \<^verbatim>\<open>signup_for_activity\<close> validates the request against the activities it fetches in
  its first step, \<open>get_activities_from_db env s\<close>. They are the activities the store holds
  (\<open>stored_activities s\<close>) unless there is a collection handle and the fetch raises: then
  they are the in-memory dictionary, while the write still goes to the collection.
\<close>

text \<open>
  Claim C5. For every activity name absent from the fetched activities mapping and every
  email, the signup fails with NotFound, \<^verbatim>\<open>HTTPException(404, "Activity not found")\<close>,
  and the store is unchanged.
\<close>

theorem signup_not_found:
  assumes "get_activities_from_db env s = Inr activities"
    and "activity_name \<notin> fst ` set activities"
  shows "signup_for_activity env s activity_name email =
           (Inl (HTTPException 404 ''Activity not found''), s)"
proof -
  from assms(2) have "map_of activities activity_name = None"
    by (simp add: map_of_eq_None_iff)
  with assms(1) show ?thesis
    by (simp add: signup_for_activity_def)
qed

theorem signup_not_found_witness:
  "get_activities_from_db healthy no_database = Inr SAMPLE_ACTIVITIES \<and>
   ''Knitting Circle'' \<notin> fst ` set SAMPLE_ACTIVITIES \<and>
   signup_for_activity healthy no_database ''Knitting Circle'' ''emma@mergington.edu'' =
     (Inl (HTTPException 404 ''Activity not found''), no_database)"
proof -
  have fetch: "get_activities_from_db healthy no_database = Inr SAMPLE_ACTIVITIES"
    by (simp add: get_activities_from_db_def no_database_def)
  have absent: "''Knitting Circle'' \<notin> fst ` set SAMPLE_ACTIVITIES"
    by (simp add: SAMPLE_ACTIVITIES_def)
  from signup_not_found [OF fetch absent] fetch absent show ?thesis by simp
qed

text \<open>
  Claim C3. For every activity present in the store and every email already in its
  participants, the signup is to fail with AlreadySignedUp,
  \<^verbatim>\<open>HTTPException(400, "Student is already signed up")\<close>. The code does so when it
  validates against the backend it writes to (\<open>signup_already_signed_up_in_store\<close>), but
  not when the fetch from the collection raises: on the seeded database after ten more
  signups for the Chess Club, the student \<^verbatim>\<open>s01@mergington.edu\<close> is among the
  participants of the Chess Club in the store, and signing up again during a failed fetch
  ends with \<^verbatim>\<open>HTTPException(500, "Failed to sign up for activity")\<close>.
\<close>

theorem signup_registered_email_not_recognised:
  "map_of (stored_activities chess_full) ''Chess Club'' = Some chess_club_full \<and>
   ''s01@mergington.edu'' \<in> set (participants chess_club_full) \<and>
   signup_for_activity fetch_down chess_full ''Chess Club'' ''s01@mergington.edu'' =
     (Inl (HTTPException 500 ''Failed to sign up for activity''), chess_full)"
proof -
  have registered: "''s01@mergington.edu'' \<in> set (participants chess_club_full)"
    by (simp add: chess_club_full_def ten_students_def)
  have outcome:
    "fst (signup_for_activity fetch_down chess_full ''Chess Club'' ''s01@mergington.edu'') =
       Inl (HTTPException 500 ''Failed to sign up for activity'')"
    by code_simp
  have state:
    "snd (signup_for_activity fetch_down chess_full ''Chess Club'' ''s01@mergington.edu'') =
       chess_full"
    by code_simp
  from chess_full_chess_club registered outcome state show ?thesis
    by (simp add: prod_eq_iff)
qed

text \<open>
  Claim C4. For every activity present in the store and every email not in its
  participants, when the number of participants is greater than or equal to
  \<^verbatim>\<open>max_participants\<close>, the signup is to fail with ActivityFull,
  \<^verbatim>\<open>HTTPException(400, "Activity is full")\<close>, and leave the store unchanged. The code
  does so when it validates against the backend it writes to
  (\<open>signup_activity_full_in_store\<close>), but not when the fetch from the collection raises:
  with the Chess Club full in the store (12 of 12), a signup of a new email during a
  failed fetch returns the confirmation and the store then lists 13 participants.
\<close>

theorem signup_full_activity_accepted:
  "map_of (stored_activities chess_full) ''Chess Club'' = Some chess_club_full \<and>
   ''zoe@mergington.edu'' \<notin> set (participants chess_club_full) \<and>
   int (length (participants chess_club_full)) \<ge> max_participants chess_club_full \<and>
   fst (signup_for_activity fetch_down chess_full ''Chess Club'' ''zoe@mergington.edu'') =
     Inr ''Signed up zoe@mergington.edu for Chess Club'' \<and>
   map_of (stored_activities
       (snd (signup_for_activity fetch_down chess_full ''Chess Club'' ''zoe@mergington.edu'')))
     ''Chess Club'' =
     Some (chess_club_full\<lparr>participants := participants chess_club_full @ [''zoe@mergington.edu'']\<rparr>)"
proof -
  have absent: "''zoe@mergington.edu'' \<notin> set (participants chess_club_full)"
    by (simp add: chess_club_full_def chess_club_def ten_students_def)
  have full: "int (length (participants chess_club_full)) \<ge> max_participants chess_club_full"
    by (simp add: chess_club_full_def chess_club_def ten_students_def)
  have outcome:
    "fst (signup_for_activity fetch_down chess_full ''Chess Club'' ''zoe@mergington.edu'') =
       Inr ''Signed up zoe@mergington.edu for Chess Club''"
    by code_simp
  have state: "map_of (stored_activities
       (snd (signup_for_activity fetch_down chess_full ''Chess Club'' ''zoe@mergington.edu'')))
     ''Chess Club'' =
     Some (chess_club_full\<lparr>participants := participants chess_club_full @ [''zoe@mergington.edu'']\<rparr>)"
    by code_simp
  from chess_full_chess_club absent full outcome state show ?thesis by blast
qed

section \<open>Signing up: the outcomes\<close>

text \<open>
  Claim C6. A signup ends in exactly one of five outcomes: the confirmation, or one of the
  four failures 404 not found, 400 already signed up, 400 activity full and 500 persistence
  failure; the five are pairwise different. A request that passes the three checks ends
  with the confirmation when \<^verbatim>\<open>update_activity_in_db\<close> reports a change and with the
  500 failure when it reports none.
\<close>

theorem signup_outcomes:
  "fst (signup_for_activity env s activity_name email) \<in>
     {Inr (''Signed up '' @ email @ '' for '' @ activity_name),
      Inl (HTTPException 404 ''Activity not found''),
      Inl (HTTPException 400 ''Student is already signed up''),
      Inl (HTTPException 400 ''Activity is full''),
      Inl (HTTPException 500 ''Failed to sign up for activity'')} \<and>
   distinct [Inr (''Signed up '' @ email @ '' for '' @ activity_name),
      Inl (HTTPException 404 ''Activity not found''),
      Inl (HTTPException 400 ''Student is already signed up''),
      Inl (HTTPException 400 ''Activity is full''),
      Inl (HTTPException 500 ''Failed to sign up for activity'')] \<and>
   (\<forall>activities activity success s'.
      get_activities_from_db env s = Inr activities \<and>
      map_of activities activity_name = Some activity \<and>
      email \<notin> set (participants activity) \<and>
      int (length (participants activity)) < max_participants activity \<and>
      update_activity_in_db env s activity_name email = Inr (success, s') \<longrightarrow>
      signup_for_activity env s activity_name email =
        (if success then Inr (''Signed up '' @ email @ '' for '' @ activity_name)
         else Inl (HTTPException 500 ''Failed to sign up for activity''), s'))"
proof -
  obtain activities where g: "get_activities_from_db env s = Inr activities"
    using get_total by blast
  obtain success s' where u: "update_activity_in_db env s activity_name email = Inr (success, s')"
    using update_total by blast
  have one: "fst (signup_for_activity env s activity_name email) \<in>
     {Inr (''Signed up '' @ email @ '' for '' @ activity_name),
      Inl (HTTPException 404 ''Activity not found''),
      Inl (HTTPException 400 ''Student is already signed up''),
      Inl (HTTPException 400 ''Activity is full''),
      Inl (HTTPException 500 ''Failed to sign up for activity'')}"
    using g u by (simp add: signup_for_activity_def split: option.splits)
  have two: "distinct [Inr (''Signed up '' @ email @ '' for '' @ activity_name),
      Inl (HTTPException 404 ''Activity not found''),
      Inl (HTTPException 400 ''Student is already signed up''),
      Inl (HTTPException 400 ''Activity is full''),
      Inl (HTTPException 500 ''Failed to sign up for activity'')]"
    by simp
  have three: "\<forall>activities activity success s'.
      get_activities_from_db env s = Inr activities \<and>
      map_of activities activity_name = Some activity \<and>
      email \<notin> set (participants activity) \<and>
      int (length (participants activity)) < max_participants activity \<and>
      update_activity_in_db env s activity_name email = Inr (success, s') \<longrightarrow>
      signup_for_activity env s activity_name email =
        (if success then Inr (''Signed up '' @ email @ '' for '' @ activity_name)
         else Inl (HTTPException 500 ''Failed to sign up for activity''), s')"
    by (simp add: signup_for_activity_def)
  from one two three show ?thesis by blast
qed

theorem signup_outcomes_witness:
  "get_activities_from_db update_down seeded = Inr SAMPLE_ACTIVITIES \<and>
   map_of SAMPLE_ACTIVITIES ''Chess Club'' = Some chess_club \<and>
   ''emma@mergington.edu'' \<notin> set (participants chess_club) \<and>
   int (length (participants chess_club)) < max_participants chess_club \<and>
   update_activity_in_db update_down seeded ''Chess Club'' ''emma@mergington.edu'' =
     Inr (False, seeded) \<and>
   signup_for_activity update_down seeded ''Chess Club'' ''emma@mergington.edu'' =
     (Inl (HTTPException 500 ''Failed to sign up for activity''), seeded)"
proof -
  have f: "get_activities_from_db update_down seeded = Inr SAMPLE_ACTIVITIES"
    by (rule seeded_fetch) (simp add: update_down_def)
  have absent: "''emma@mergington.edu'' \<notin> set (participants chess_club)"
    by (simp add: chess_club_def)
  have room: "int (length (participants chess_club)) < max_participants chess_club"
    by (simp add: chess_club_def)
  obtain coll where c: "activities_collection seeded = Some coll"
    using seeded_handle by blast
  have u: "update_activity_in_db update_down seeded ''Chess Club'' ''emma@mergington.edu'' =
      Inr (False, seeded)"
    using c by (simp add: update_activity_in_db_def update_one_def update_down_def)
  from signup_outcomes [of update_down seeded "''Chess Club''" "''emma@mergington.edu''"]
    f sample_chess_club absent room u
  have "signup_for_activity update_down seeded ''Chess Club'' ''emma@mergington.edu'' =
     (Inl (HTTPException 500 ''Failed to sign up for activity''), seeded)"
    by auto
  with f sample_chess_club absent room u show ?thesis by simp
qed

text \<open>
  Claim C2, as amended. When the backend answers the request (there is no collection
  handle, or neither the fetch nor the update raises) and activity names are unique, then
  for every activity present in the fetched mapping and every email not yet in its
  participants, when the number of participants is strictly below \<^verbatim>\<open>max_participants\<close>,
  the signup returns the message \<^verbatim>\<open>Signed up {email} for {activity_name}\<close>, and a fetch
  afterwards shows the activity with the email appended: one participant more.
\<close>

theorem signup_success:
  assumes "backend_answers env s" and "unique_names s"
    and "get_activities_from_db env s = Inr activities"
    and "map_of activities activity_name = Some activity"
    and "email \<notin> set (participants activity)"
    and "int (length (participants activity)) < max_participants activity"
  shows "fst (signup_for_activity env s activity_name email) =
           Inr (''Signed up '' @ email @ '' for '' @ activity_name) \<and>
         (\<exists>activities' activity'.
            get_activities_from_db env (snd (signup_for_activity env s activity_name email)) =
              Inr activities' \<and>
            map_of activities' activity_name = Some activity' \<and>
            participants activity' = participants activity @ [email] \<and>
            length (participants activity') = length (participants activity) + 1)"
proof (cases "activities_collection s")
  case None
  let ?a' = "activity\<lparr>participants := participants activity @ [email]\<rparr>"
  let ?s' = "s\<lparr>sample_activities := AList.update activity_name ?a' (sample_activities s)\<rparr>"
  from assms(3) None have acts: "activities = sample_activities s" by (simp add: get_fallback)
  with assms(4) have look: "map_of (sample_activities s) activity_name = Some activity" by simp
  from None look assms(5)
  have u: "update_activity_in_db env s activity_name email = Inr (True, ?s')"
    by (simp add: update_activity_in_db_def)
  with assms(3-6) have r: "signup_for_activity env s activity_name email =
      (Inr (''Signed up '' @ email @ '' for '' @ activity_name), ?s')"
    by (simp add: signup_for_activity_def)
  have "get_activities_from_db env ?s' = Inr (sample_activities ?s')"
    using None by (simp add: get_fallback)
  moreover have "map_of (sample_activities ?s') activity_name = Some ?a'"
    by (simp add: AList.update_conv')
  ultimately show ?thesis using r by simp
next
  case (Some coll)
  with assms(1) have nf: "\<not> find_raises env" and nu: "\<not> update_raises env"
    by (simp_all add: backend_answers_def)
  from assms(2) Some have d: "distinct (map name coll)" by (simp add: unique_names_def)
  from get_collection [OF Some nf] assms(3) d have acts: "activities = entries coll"
    by (simp add: activities_dict_distinct)
  with assms(4) have look: "map_of (entries coll) activity_name = Some activity" by simp
  obtain c coll' where ac: "addToSet_one activity_name email coll = (c, coll')"
    by (cases "addToSet_one activity_name email coll")
  let ?a' = "activity\<lparr>participants := participants activity @ [email]\<rparr>"
  let ?s' = "s\<lparr>activities_collection := Some coll'\<rparr>"
  from addToSet_one_entries [OF look assms(5)] ac
  have c: "c = 1" and m: "map_of (entries coll') = (map_of (entries coll))(activity_name \<mapsto> ?a')"
    by simp_all
  from Some nu ac c have u: "update_activity_in_db env s activity_name email = Inr (True, ?s')"
    by (simp add: update_activity_in_db_def update_one_def)
  with assms(3-6) have r: "signup_for_activity env s activity_name email =
      (Inr (''Signed up '' @ email @ '' for '' @ activity_name), ?s')"
    by (simp add: signup_for_activity_def)
  from addToSet_one_names [of activity_name email coll] ac d have d': "distinct (map name coll')"
    by simp
  have "activities_collection ?s' = Some coll'" by simp
  from get_collection [OF this nf] d'
  have "get_activities_from_db env ?s' = Inr (entries coll')"
    by (simp add: activities_dict_distinct)
  moreover have "map_of (entries coll') activity_name = Some ?a'" using m by simp
  ultimately show ?thesis using r by simp
qed

theorem signup_success_witness:
  "backend_answers healthy seeded \<and> unique_names seeded \<and>
   get_activities_from_db healthy seeded = Inr SAMPLE_ACTIVITIES \<and>
   map_of SAMPLE_ACTIVITIES ''Chess Club'' = Some chess_club \<and>
   ''new@mergington.edu'' \<notin> set (participants chess_club) \<and>
   int (length (participants chess_club)) < max_participants chess_club \<and>
   fst (signup_for_activity healthy seeded ''Chess Club'' ''new@mergington.edu'') =
     Inr ''Signed up new@mergington.edu for Chess Club'' \<and>
   (\<exists>activities' activity'.
      get_activities_from_db healthy
        (snd (signup_for_activity healthy seeded ''Chess Club'' ''new@mergington.edu'')) =
        Inr activities' \<and>
      map_of activities' ''Chess Club'' = Some activity' \<and>
      participants activity' = participants chess_club @ [''new@mergington.edu''] \<and>
      length (participants activity') = 3)"
proof -
  have b: "backend_answers healthy seeded" by (simp add: backend_answers_def healthy_def)
  have f: "get_activities_from_db healthy seeded = Inr SAMPLE_ACTIVITIES"
    by (rule seeded_fetch) (simp add: healthy_def)
  have absent: "''new@mergington.edu'' \<notin> set (participants chess_club)"
    by (simp add: chess_club_def)
  have room: "int (length (participants chess_club)) < max_participants chess_club"
    by (simp add: chess_club_def)
  have three: "length (participants chess_club) + 1 = 3"
    by (simp add: chess_club_def)
  from signup_success [OF b seeded_names f sample_chess_club absent room]
  have "fst (signup_for_activity healthy seeded ''Chess Club'' ''new@mergington.edu'') =
     Inr ''Signed up new@mergington.edu for Chess Club'' \<and>
   (\<exists>activities' activity'.
      get_activities_from_db healthy
        (snd (signup_for_activity healthy seeded ''Chess Club'' ''new@mergington.edu'')) =
        Inr activities' \<and>
      map_of activities' ''Chess Club'' = Some activity' \<and>
      participants activity' = participants chess_club @ [''new@mergington.edu''] \<and>
      length (participants activity') = 3)"
    unfolding three by simp
  with b seeded_names f sample_chess_club absent room show ?thesis by blast
qed

text \<open>
  The claim as written, without the condition on the backend, fails: on the seeded
  database, a new email for the Chess Club (2 of 12) when the update raises gets the 500
  failure, not the confirmation.
\<close>

theorem signup_success_counterexample:
  "get_activities_from_db update_down seeded = Inr SAMPLE_ACTIVITIES \<and>
   map_of SAMPLE_ACTIVITIES ''Chess Club'' = Some chess_club \<and>
   ''new@mergington.edu'' \<notin> set (participants chess_club) \<and>
   int (length (participants chess_club)) < max_participants chess_club \<and>
   fst (signup_for_activity update_down seeded ''Chess Club'' ''new@mergington.edu'') =
     Inl (HTTPException 500 ''Failed to sign up for activity'')"
proof -
  have f: "get_activities_from_db update_down seeded = Inr SAMPLE_ACTIVITIES"
    by (rule seeded_fetch) (simp add: update_down_def)
  have absent: "''new@mergington.edu'' \<notin> set (participants chess_club)"
    by (simp add: chess_club_def)
  have room: "int (length (participants chess_club)) < max_participants chess_club"
    by (simp add: chess_club_def)
  obtain coll where c: "activities_collection seeded = Some coll"
    using seeded_handle by blast
  have "update_activity_in_db update_down seeded ''Chess Club'' ''new@mergington.edu'' =
      Inr (False, seeded)"
    using c by (simp add: update_activity_in_db_def update_one_def update_down_def)
  with f sample_chess_club absent room
  have "fst (signup_for_activity update_down seeded ''Chess Club'' ''new@mergington.edu'') =
     Inl (HTTPException 500 ''Failed to sign up for activity'')"
    by (simp add: signup_for_activity_def)
  with f sample_chess_club absent room show ?thesis by simp
qed

section \<open>The invariant\<close>

text \<open>
  Claim C1. Every activity of the store is to have at most \<^verbatim>\<open>max_participants\<close>
  participants and no participant twice, after seeding and after every signup. The
  invariant holds after seeding, and a signup that validates against the backend it writes
  to preserves it (\<open>invariant_on_consistent_paths\<close>). A signup during which the fetch
  from the collection raises does not: on the seeded database with the Chess Club full
  (12 of 12), where the invariant holds, it validates against the in-memory dictionary
  (2 of 12), returns the confirmation, and the update leaves the document of the Chess Club
  with 13 participants.
\<close>

theorem signup_breaks_capacity_invariant:
  "store_inv chess_full \<and> unique_names chess_full \<and>
   fst (signup_for_activity fetch_down chess_full ''Chess Club'' ''late@mergington.edu'') =
     Inr ''Signed up late@mergington.edu for Chess Club'' \<and>
   \<not> store_inv
     (snd (signup_for_activity fetch_down chess_full ''Chess Club'' ''late@mergington.edu''))"
proof -
  have before: "store_inv chess_full"
    by code_simp
  have names: "unique_names chess_full"
    by code_simp
  have accepted:
    "fst (signup_for_activity fetch_down chess_full ''Chess Club'' ''late@mergington.edu'') =
       Inr ''Signed up late@mergington.edu for Chess Club''"
    by code_simp
  have after: "\<not> store_inv
     (snd (signup_for_activity fetch_down chess_full ''Chess Club'' ''late@mergington.edu''))"
    by code_simp
  from before names accepted after show ?thesis by blast
qed

end
